theory Spec2Isabelle
  imports Main "HOL-Library.Sublist"
begin

section \<open>The authentication facade of the Copr frontend (coprs/auth.py)\<close>

text \<open>
  A shallow embedding of \<^verbatim>\<open>coprs/auth.py\<close> and of \<^verbatim>\<open>krb_straighten_username\<close> from
  \<^verbatim>\<open>coprs/views/apiv3_ns/apiv3_general.py\<close>. Python exceptions are values of \<open>exn\<close>, a
  function that may raise returns \<open>exn + 'a\<close> (\<open>Inl\<close> the exception), Python's \<open>None\<close> is
  \<open>None\<close> of an option type, and the process-wide \<^verbatim>\<open>app.config\<close> is an explicit record.
\<close>

subsection \<open>Exceptions, configuration, Python truthiness\<close>

datatype exn =
    CoprHttpException string
  | AccessRestricted string
  | LdapServerDown string
  | LdapOtherError string
  | IndexError
  | KeyError string
  | TypeError
  | ValueError

text \<open>
  \<^verbatim>\<open>app.config\<close>: the options the facade reads. \<^verbatim>\<open>KRB5_LOGIN\<close> is either unset (\<open>None\<close>)
  or a dictionary, kept as an association list; \<^verbatim>\<open>LDAP_URL\<close> and \<^verbatim>\<open>LDAP_SEARCH_STRING\<close>
  are unset or strings.
\<close>

record config =
  FAS_LOGIN :: bool
  KRB5_LOGIN :: "(string \<times> string) list option"
  LDAP_URL :: "string option"
  LDAP_SEARCH_STRING :: "string option"
  USE_ALLOWED_USERS :: bool
  ALLOWED_USERS :: "string list"
  OPENID_PROVIDER_URL :: string

text \<open>Truthiness of an optional string: \<^verbatim>\<open>None\<close> and \<^verbatim>\<open>""\<close> are falsy.\<close>

fun truthy_str :: "string option \<Rightarrow> bool" where
  "truthy_str None = False"
| "truthy_str (Some s) = (s \<noteq> [])"

definition ascii_letters :: string where
  "ascii_letters = ''abcdefghijklmnopqrstuvwxyzABCDEFGHIJKLMNOPQRSTUVWXYZ''"

definition ascii_digits :: string where
  "ascii_digits = ''0123456789''"

text \<open>\<^verbatim>\<open>str.split(sep)\<close> with a one-character separator.\<close>

fun str_split :: "char \<Rightarrow> string \<Rightarrow> string list" where
  "str_split sep [] = [[]]"
| "str_split sep (c # cs) =
     (if c = sep then [] # str_split sep cs
      else (case str_split sep cs of
              [] \<Rightarrow> [[c]]
            | p # ps \<Rightarrow> (c # p) # ps))"

subsection \<open>FedoraAccounts\<close>

text \<open>
  \<^verbatim>\<open>is_user_allowed(username)\<close>:
  \<^verbatim>\<open>if not username: return False\<close>,
  \<^verbatim>\<open>if not app.config["USE_ALLOWED_USERS"]: return True\<close>,
  \<^verbatim>\<open>return username in app.config["ALLOWED_USERS"]\<close>.
\<close>

definition FedoraAccounts_is_user_allowed :: "config \<Rightarrow> string option \<Rightarrow> bool" where
  "FedoraAccounts_is_user_allowed cfg username =
     (if \<not> truthy_str username then False
      else if \<not> USE_ALLOWED_USERS cfg then True
      else (case username of None \<Rightarrow> False | Some n \<Rightarrow> n \<in> set (ALLOWED_USERS cfg)))"

text \<open>
  The network location that \<^verbatim>\<open>urllib.parse.urlparse\<close> reports; the parser belongs to
  the standard library and is modelled after \<^verbatim>\<open>urlsplit\<close> of CPython 3.11. Characters
  are code points below 256. In order:
  \<^item> leading characters up to the space (C0 controls and the space) are stripped, and
    every TAB, CR and LF is removed from the URL;
  \<^item> a scheme is cut off when the text before the first \<^verbatim>\<open>:\<close> is non-empty, starts with
    an ASCII letter and consists of scheme characters;
  \<^item> when the rest starts with \<^verbatim>\<open>//\<close>, the network location runs up to the first of
    \<^verbatim>\<open>/ ? #\<close>, and otherwise it is empty;
  \<^item> a network location with only one of the two square brackets raises
    \<^verbatim>\<open>ValueError\<close>; with both, the text between the first \<^verbatim>\<open>[\<close> and the next \<^verbatim>\<open>]\<close> must
    be an IPvFuture literal or an IPv6 address as \<^verbatim>\<open>ipaddress.ip_address\<close> accepts it, or
    \<^verbatim>\<open>ValueError\<close> is raised.
  The last check of \<^verbatim>\<open>urlsplit\<close>, on the NFKC form of a non-ASCII network location,
  never raises on code points below 256 and is left out.
\<close>

definition scheme_chars :: string where
  "scheme_chars = ascii_letters @ ascii_digits @ ''+-.''"

definition hex_digits :: string where
  "hex_digits = ''0123456789abcdefABCDEF''"

text \<open>
  \<^verbatim>\<open>url.lstrip(_WHATWG_C0_CONTROL_OR_SPACE)\<close>, then the removal of
  \<^verbatim>\<open>_UNSAFE_URL_BYTES_TO_REMOVE\<close>.
\<close>

definition url_cleaned :: "string \<Rightarrow> string" where
  "url_cleaned url =
     filter (\<lambda>c. c \<notin> set [CHR 0x09, CHR 0x0D, CHR 0x0A])
       (dropWhile (\<lambda>c. (of_char c :: nat) \<le> 32) url)"

definition url_without_scheme :: "string \<Rightarrow> string" where
  "url_without_scheme url =
     (let pre = takeWhile (\<lambda>c. c \<noteq> CHR '':'') url
      in if length pre < length url
            \<and> (case pre of [] \<Rightarrow> False | c # _ \<Rightarrow> c \<in> set ascii_letters)
            \<and> list_all (\<lambda>c. c \<in> set scheme_chars) pre
         then drop (length pre + 1) url
         else url)"

text \<open>
  \<^verbatim>\<open>IPv4Address._parse_octet\<close> and \<^verbatim>\<open>IPv4Address(s)\<close>: whether the string is accepted.
  An octet is one to three ASCII digits without a leading zero (but \<^verbatim>\<open>0\<close> itself), at
  most 255.
\<close>

definition decimal_value :: "string \<Rightarrow> nat" where
  "decimal_value s = foldl (\<lambda>n c. 10 * n + (of_char c - 48)) 0 s"

definition octet_ok :: "string \<Rightarrow> bool" where
  "octet_ok s =
     (s \<noteq> [] \<and> list_all (\<lambda>c. c \<in> set ascii_digits) s \<and> length s \<le> 3
      \<and> (s = ''0'' \<or> take 1 s \<noteq> ''0'') \<and> decimal_value s \<le> 255)"

definition ipv4_ok :: "string \<Rightarrow> bool" where
  "ipv4_ok s =
     (CHR ''/'' \<notin> set s \<and> s \<noteq> []
      \<and> length (str_split CHR ''.'' s) = 4 \<and> list_all octet_ok (str_split CHR ''.'' s))"

text \<open>
  \<^verbatim>\<open>IPv6Address._parse_hextet\<close>: one to four hexadecimal digits (the empty string is
  refused by \<^verbatim>\<open>int(s, 16)\<close>).
\<close>

definition hextet_ok :: "string \<Rightarrow> bool" where
  "hextet_ok s = (list_all (\<lambda>c. c \<in> set hex_digits) s \<and> length s \<le> 4 \<and> s \<noteq> [])"

text \<open>
  \<^verbatim>\<open>IPv6Address._ip_int_from_string\<close> on the parts between the colons, after an
  IPv4-style last part has been replaced by its two hextets: at most nine parts; at
  most one empty part strictly inside (the \<^verbatim>\<open>::\<close>, at \<open>skip_index\<close>); with it, an empty
  first part only directly before it and an empty last part only directly after it,
  at most seven parts besides, and hextets before and after; without it, exactly
  eight hextets.
\<close>

definition ipv6_parts_ok :: "string list \<Rightarrow> bool" where
  "ipv6_parts_ok parts =
     (let n = length parts;
          skips = filter (\<lambda>i. parts ! i = []) [1..<n - 1]
      in if n > 9 then False
         else (case skips of
                 [] \<Rightarrow> n = 8 \<and> list_all hextet_ok parts
               | [skip_index] \<Rightarrow>
                   (let parts_hi = (if hd parts = [] then skip_index - 1 else skip_index);
                        parts_lo = (if last parts = [] then n - skip_index - 2
                                    else n - skip_index - 1)
                    in (if hd parts = [] then parts_hi = 0 else True)
                       \<and> (if last parts = [] then parts_lo = 0 else True)
                       \<and> parts_hi + parts_lo \<le> 7
                       \<and> list_all hextet_ok (take parts_hi parts)
                       \<and> list_all hextet_ok (drop (n - parts_lo) parts))
               | _ \<Rightarrow> False))"

text \<open>
  \<^verbatim>\<open>IPv6Address(s)\<close>: no \<^verbatim>\<open>/\<close>; a scope id after the first \<^verbatim>\<open>%\<close> must be non-empty and
  free of \<^verbatim>\<open>%\<close>; the address before it is non-empty, has at least three parts, and a
  last part with a dot must be an IPv4 address, which stands for two hextets.
\<close>

definition ipv6_ok :: "string \<Rightarrow> bool" where
  "ipv6_ok s =
     (let addr = takeWhile (\<lambda>c. c \<noteq> CHR ''%'') s;
          scope = dropWhile (\<lambda>c. c \<noteq> CHR ''%'') s;
          parts = str_split CHR '':'' addr
      in CHR ''/'' \<notin> set s
         \<and> (scope = [] \<or> (tl scope \<noteq> [] \<and> CHR ''%'' \<notin> set (tl scope)))
         \<and> addr \<noteq> []
         \<and> length parts \<ge> 3
         \<and> (if CHR ''.'' \<in> set (last parts)
             then ipv4_ok (last parts) \<and> ipv6_parts_ok (butlast parts @ [''0'', ''0''])
             else ipv6_parts_ok parts))"

text \<open>
  \<^verbatim>\<open>_check_bracketed_host\<close>: a host that starts with \<^verbatim>\<open>v\<close> must match
  \<^verbatim>\<open>\Av[a-fA-F0-9]+\..+\Z\<close>; any other host must be an IP address and not an IPv4
  address.
\<close>

definition bracketed_host_ok :: "string \<Rightarrow> bool" where
  "bracketed_host_ok hostname =
     (if take 1 hostname = ''v''
      then (let digits = takeWhile (\<lambda>c. c \<in> set hex_digits) (tl hostname);
                rest = dropWhile (\<lambda>c. c \<in> set hex_digits) (tl hostname)
            in digits \<noteq> [] \<and> take 1 rest = ''.'' \<and> tl rest \<noteq> []
               \<and> CHR 0x0A \<notin> set (tl rest))
      else \<not> ipv4_ok hostname \<and> ipv6_ok hostname)"

definition urlparse_netloc :: "string \<Rightarrow> exn + string" where
  "urlparse_netloc url =
     (let rest = url_without_scheme (url_cleaned url)
      in if take 2 rest = ''//'' then
           (let netloc = takeWhile (\<lambda>c. c \<notin> set ''/?#'') (drop 2 rest)
            in if (CHR ''['' \<in> set netloc \<and> CHR '']'' \<notin> set netloc)
                  \<or> (CHR '']'' \<in> set netloc \<and> CHR ''['' \<notin> set netloc)
               then Inl ValueError
               else if CHR ''['' \<in> set netloc \<and> CHR '']'' \<in> set netloc
                       \<and> \<not> bracketed_host_ok
                             (takeWhile (\<lambda>c. c \<noteq> CHR '']'')
                                (drop 1 (dropWhile (\<lambda>c. c \<noteq> CHR ''['') netloc)))
               then Inl ValueError
               else Inr netloc)
         else Inr [])"

text \<open>
  \<^verbatim>\<open>str.replace(old, new)\<close>: every non-overlapping occurrence of \<open>old\<close>, found from the
  left, is replaced. (With an empty \<open>old\<close>, Python puts \<open>new\<close> before every character and
  at the end.)
\<close>

function str_replace :: "string \<Rightarrow> string \<Rightarrow> string \<Rightarrow> string" where
  "str_replace old new [] = (if old = [] then new else [])"
| "str_replace old new (c # cs) =
     (if old = [] then new @ c # str_replace old new cs
      else if prefix old (c # cs) then new @ str_replace old new (drop (length old) (c # cs))
      else c # str_replace old new cs)"
  by pat_completeness auto
termination
  by (relation "measure (\<lambda>(old, new, s). length s)") auto

text \<open>
  \<^verbatim>\<open>fed_raw_name(oidname)\<close>:
  \<^verbatim>\<open>oidname_parse = urlparse(oidname)\<close>;
  \<^verbatim>\<open>if not oidname_parse.netloc: return oidname\<close>;
  \<^verbatim>\<open>config_parse = urlparse(app.config["OPENID_PROVIDER_URL"])\<close>;
  \<^verbatim>\<open>return oidname_parse.netloc.replace(".{0}".format(config_parse.netloc), "")\<close>.
\<close>

definition FedoraAccounts_fed_raw_name :: "config \<Rightarrow> string \<Rightarrow> exn + string" where
  "FedoraAccounts_fed_raw_name cfg oidname =
     (case urlparse_netloc oidname of
        Inl e \<Rightarrow> Inl e
      | Inr netloc \<Rightarrow>
          if netloc = [] then Inr oidname
          else (case urlparse_netloc (OPENID_PROVIDER_URL cfg) of
                  Inl e \<Rightarrow> Inl e
                | Inr config_netloc \<Rightarrow>
                    Inr (str_replace (CHR ''.'' # config_netloc) [] netloc)))"

subsection \<open>Kerberos principals (apiv3_general.py)\<close>

text \<open>
  \<^verbatim>\<open>re.sub(r'@.*', '', s)\<close>: every match is deleted; a match starts at an \<^verbatim>\<open>@\<close> and runs
  to the end of the line, since \<^verbatim>\<open>.\<close> matches every character but the newline.
\<close>

function re_sub_realm :: "string \<Rightarrow> string" where
  "re_sub_realm [] = []"
| "re_sub_realm (c # cs) =
     (if c = CHR ''@'' then re_sub_realm (dropWhile (\<lambda>x. x \<noteq> CHR 0x0A) cs)
      else c # re_sub_realm cs)"
  by pat_completeness auto
termination
  by (relation "measure length") (auto simp: le_imp_less_Suc length_dropWhile_le)

text \<open>\<^verbatim>\<open>re.sub('/', '_', s)\<close>.\<close>

definition re_sub_slash :: "string \<Rightarrow> string" where
  "re_sub_slash s = map (\<lambda>c. if c = CHR ''/'' then CHR ''_'' else c) s"

text \<open>
  The class \<^verbatim>\<open>\w\<close> of Python's \<^verbatim>\<open>re\<close> on a \<^verbatim>\<open>str\<close>: the underscore and every character
  that \<^verbatim>\<open>str.isalnum\<close> accepts. Characters are code points below 256, as the strings
  of a WSGI environment (\<^verbatim>\<open>REMOTE_USER\<close>) are; among them the class holds the ASCII
  letters and digits, the underscore, and from 128 on the letters and the numeric
  characters of Latin-1: 170, 178, 179, 181, 185, 186, 188 to 190, 192 to 214, 216 to
  246 and 248 to 255.
\<close>

definition word_char :: "char \<Rightarrow> bool" where
  "word_char c =
     (let n = (of_char c :: nat)
      in c \<in> set (ascii_letters @ ascii_digits @ ''_'')
         \<or> n \<in> set [170, 178, 179, 181, 185, 186, 188, 189, 190]
         \<or> (192 \<le> n \<and> n \<le> 214) \<or> (216 \<le> n \<and> n \<le> 246) \<or> 248 \<le> n)"

text \<open>The class \<^verbatim>\<open>[\w.-]\<close>: a word character, the dot or the dash.\<close>

definition name_char :: "char \<Rightarrow> bool" where
  "name_char c = (word_char c \<or> c \<in> set ''.-'')"

text \<open>
  \<^verbatim>\<open>re.match(r"^[\w.-]+$", s)\<close> succeeds when a non-empty run of class characters is
  followed by the end of the string; without \<^verbatim>\<open>re.MULTILINE\<close>, \<^verbatim>\<open>$\<close> matches at the
  end of the string and also just before a newline that ends the string.
\<close>

definition re_match_name :: "string \<Rightarrow> bool" where
  "re_match_name s =
     (let run = takeWhile name_char s; rest = dropWhile name_char s
      in run \<noteq> [] \<and> (rest = [] \<or> rest = [CHR 0x0A]))"

definition krb_straighten_username :: "string \<Rightarrow> string option" where
  "krb_straighten_username krb_remote_user =
     (let username = re_sub_realm krb_remote_user;
          username = re_sub_slash username
      in if re_match_name username then Some username else None)"

subsection \<open>The directory client (class LDAP)\<close>

text \<open>
  A search result entry of the directory library is a pair of the distinguished name
  and the attribute dictionary, whose values are lists of byte strings.
\<close>

type_synonym ldap_entry = "string \<times> (string \<times> string list) list"

text \<open>
  What one \<^verbatim>\<open>ldap.initialize(url)\<close> followed by \<^verbatim>\<open>search_s(ou, SCOPE_ONELEVEL, ffilter, attrs)\<close>
  does: the library raises \<^verbatim>\<open>ldap.SERVER_DOWN\<close> (with its description), raises another
  directory error, or returns the entries found.
\<close>

datatype ldap_reply =
    SERVER_DOWN string
  | OTHER_ERROR string
  | Entries "ldap_entry list"

text \<open>
  The directory seen from the client: the reply to the \<open>n\<close>-th attempt (counted from 1)
  at a given URL, search base, filter and attribute list.
\<close>

type_synonym ldap_network =
  "string option \<Rightarrow> nat \<Rightarrow> string option \<Rightarrow> string \<Rightarrow> string list \<Rightarrow> ldap_reply"

record LDAP =
  url :: "string option"
  search_string :: "string option"

text \<open>
  \<^verbatim>\<open>_send_request\<close>: a single request. \<^verbatim>\<open>ldap.SERVER_DOWN\<close> is caught here and raised
  again as \<^verbatim>\<open>CoprHttpException(ex.args[0]["desc"])\<close>; any other exception of the library
  propagates as it is.
\<close>

definition LDAP_send_request_single ::
  "ldap_network \<Rightarrow> LDAP \<Rightarrow> nat \<Rightarrow> string option \<Rightarrow> string list \<Rightarrow> string \<Rightarrow> exn + ldap_entry list" where
  "LDAP_send_request_single net self n ou attrs ffilter =
     (case net (url self) n ou ffilter attrs of
        SERVER_DOWN desc \<Rightarrow> Inl (CoprHttpException desc)
      | OTHER_ERROR msg \<Rightarrow> Inl (LdapOtherError msg)
      | Entries es \<Rightarrow> Inr es)"

text \<open>
  \<^verbatim>\<open>_send_request_repeatedly\<close>: \<^verbatim>\<open>i = 0; while True: i += 1; try: return
  self._send_request(...) except ldap.SERVER_DOWN: print(...); time.sleep(0.5)\<close>.
  The loop has no bound, so the model is a partial function: \<open>None\<close> is a run that never
  returns. The state is the counter \<open>i\<close> and the number of \<^verbatim>\<open>time.sleep(0.5)\<close> calls
  made; both are returned with the outcome. Only an exception that is
  \<^verbatim>\<open>ldap.SERVER_DOWN\<close> itself reaches the handler; every other outcome of
  \<^verbatim>\<open>_send_request\<close> leaves the loop.
\<close>

partial_function (option) LDAP_send_request_repeatedly ::
  "ldap_network \<Rightarrow> LDAP \<Rightarrow> string option \<Rightarrow> string list \<Rightarrow> string \<Rightarrow> nat \<Rightarrow> nat
     \<Rightarrow> ((exn + ldap_entry list) \<times> nat \<times> nat) option" where
  "LDAP_send_request_repeatedly net self ou attrs ffilter i sleeps =
     (case LDAP_send_request_single net self (i + 1) ou attrs ffilter of
        Inl (LdapServerDown ex) \<Rightarrow>
          LDAP_send_request_repeatedly net self ou attrs ffilter (i + 1) (sleeps + 1)
      | Inl e \<Rightarrow> Some (Inl e, i + 1, sleeps)
      | Inr es \<Rightarrow> Some (Inr es, i + 1, sleeps))"

text \<open>\<^verbatim>\<open>send_request\<close> returns what the loop returns, started with \<^verbatim>\<open>i = 0\<close>.\<close>

definition LDAP_send_request ::
  "ldap_network \<Rightarrow> LDAP \<Rightarrow> string option \<Rightarrow> string list \<Rightarrow> string \<Rightarrow> (exn + ldap_entry list) option" where
  "LDAP_send_request net self ou attrs ffilter =
     map_option fst (LDAP_send_request_repeatedly net self ou attrs ffilter 0 0)"

text \<open>
  \<^verbatim>\<open>_build_filter\<close>: \<^verbatim>\<open>filters = filters or {"objectclass": "*"}\<close>, then one
  \<^verbatim>\<open>"({0}={1})"\<close> per item, all inside \<^verbatim>\<open>"(&{0})"\<close>. A dictionary is the list of its
  items in insertion order.
\<close>

definition LDAP_build_filter :: "(string \<times> string) list option \<Rightarrow> string" where
  "LDAP_build_filter filters =
     (let filters = (case filters of
                       None \<Rightarrow> [(''objectclass'', ''*'')]
                     | Some [] \<Rightarrow> [(''objectclass'', ''*'')]
                     | Some (f # fs) \<Rightarrow> f # fs);
          ffilter = map (\<lambda>(k, v). ''('' @ k @ ''='' @ v @ '')'') filters
      in ''(&'' @ concat ffilter @ '')'')"

text \<open>
  \<^verbatim>\<open>query_one\<close>: \<^verbatim>\<open>return self.send_request(self.search_string, attrs, ffilter)[0]\<close>.
  Indexing an empty list raises \<^verbatim>\<open>IndexError\<close>.
\<close>

definition LDAP_query_one ::
  "ldap_network \<Rightarrow> LDAP \<Rightarrow> string list \<Rightarrow> (string \<times> string) list option \<Rightarrow> (exn + ldap_entry) option" where
  "LDAP_query_one net self attrs filters =
     (let ffilter = LDAP_build_filter filters
      in case LDAP_send_request net self (search_string self) attrs ffilter of
           None \<Rightarrow> None
         | Some (Inl e) \<Rightarrow> Some (Inl e)
         | Some (Inr []) \<Rightarrow> Some (Inl IndexError)
         | Some (Inr (entry # _)) \<Rightarrow> Some (Inr entry))"

definition LDAP_get_user :: "ldap_network \<Rightarrow> LDAP \<Rightarrow> string \<Rightarrow> (exn + ldap_entry) option" where
  "LDAP_get_user net self username =
     LDAP_query_one net self [''cn'', ''uid'', ''memberOf'', ''mail'']
       (Some [(''objectclass'', ''*''), (''uid'', username)])"

text \<open>A two-element tuple is never falsy in Python.\<close>

definition truthy_entry :: "ldap_entry \<Rightarrow> bool" where
  "truthy_entry user = True"

text \<open>
  \<^verbatim>\<open>get_user_groups\<close>: \<^verbatim>\<open>user = self.get_user(username)\<close>;
  \<^verbatim>\<open>if not user: return None\<close>; \<^verbatim>\<open>return user[1]["memberOf"]\<close>.
  A missing attribute raises \<^verbatim>\<open>KeyError\<close>.
\<close>

definition LDAP_get_user_groups ::
  "ldap_network \<Rightarrow> LDAP \<Rightarrow> string \<Rightarrow> (exn + string list option) option" where
  "LDAP_get_user_groups net self username =
     (case LDAP_get_user net self username of
        None \<Rightarrow> None
      | Some (Inl e) \<Rightarrow> Some (Inl e)
      | Some (Inr user) \<Rightarrow>
          if \<not> truthy_entry user then Some (Inr None)
          else (case map_of (snd user) ''memberOf'' of
                  None \<Rightarrow> Some (Inl (KeyError ''memberOf''))
                | Some groups \<Rightarrow> Some (Inr (Some groups))))"

subsection \<open>Group names (OpenIDGroups, LDAPGroups, GroupAuth)\<close>

text \<open>
  \<^verbatim>\<open>dict([tuple(x.split("=")) for x in group.split(",")])\<close>: every element must have
  exactly two parts, or \<^verbatim>\<open>dict\<close> raises \<^verbatim>\<open>ValueError\<close>; a later pair replaces an
  earlier pair with the same key.
\<close>

fun key_value :: "string list \<Rightarrow> exn + (string \<times> string)" where
  "key_value [k, v] = Inr (k, v)"
| "key_value parts = Inl ValueError"

fun key_values :: "string list \<Rightarrow> exn + (string \<times> string) list" where
  "key_values [] = Inr []"
| "key_values (x # xs) =
     (case key_value (str_split CHR ''='' x) of
        Inl e \<Rightarrow> Inl e
      | Inr kv \<Rightarrow> (case key_values xs of Inl e \<Rightarrow> Inl e | Inr kvs \<Rightarrow> Inr (kv # kvs)))"

definition dict_get :: "(string \<times> string) list \<Rightarrow> string \<Rightarrow> string option" where
  "dict_get pairs k = map_of (rev pairs) k"

text \<open>
  The body of the loop of \<^verbatim>\<open>LDAPGroups.group_names\<close>: the group name of one
  \<^verbatim>\<open>memberOf\<close> value, \<^verbatim>\<open>attrs["cn"]\<close>. The value is taken as already decoded text.
\<close>

definition group_cn :: "string \<Rightarrow> exn + string" where
  "group_cn grp =
     (case key_values (str_split CHR '','' grp) of
        Inl e \<Rightarrow> Inl e
      | Inr attrs \<Rightarrow>
          (case dict_get attrs ''cn'' of
             None \<Rightarrow> Inl (KeyError ''cn'')
           | Some name \<Rightarrow> Inr name))"

fun group_cns :: "string list \<Rightarrow> exn + string list" where
  "group_cns [] = Inr []"
| "group_cns (g # gs) =
     (case group_cn g of
        Inl e \<Rightarrow> Inl e
      | Inr name \<Rightarrow> (case group_cns gs of Inl e \<Rightarrow> Inl e | Inr names \<Rightarrow> Inr (name # names)))"

text \<open>
  \<^verbatim>\<open>LDAPGroups.group_names(username)\<close>: iterating over the \<^verbatim>\<open>None\<close> that
  \<^verbatim>\<open>get_user_groups\<close> may return raises \<^verbatim>\<open>TypeError\<close>.
\<close>

definition LDAPGroups_group_names ::
  "config \<Rightarrow> ldap_network \<Rightarrow> string \<Rightarrow> (exn + string list) option" where
  "LDAPGroups_group_names cfg net username =
     (let ldap_client = \<lparr>url = LDAP_URL cfg, search_string = LDAP_SEARCH_STRING cfg\<rparr>
      in case LDAP_get_user_groups net ldap_client username of
           None \<Rightarrow> None
         | Some (Inl e) \<Rightarrow> Some (Inl e)
         | Some (Inr None) \<Rightarrow> Some (Inl TypeError)
         | Some (Inr (Some gs)) \<Rightarrow> Some (group_cns gs))"

text \<open>
  The federated response: identity URL, the optional claims, and the extension
  responses by name space; the teams extension carries the list of team names.
\<close>

datatype teams_response = TeamsResponse (teams: "string list")

record auth_response =
  identity_url :: string
  email :: "string option"
  timezone :: "string option"
  extensions :: "(string \<times> teams_response) list"

text \<open>
  What \<^verbatim>\<open>group_names\<close> can return: \<^verbatim>\<open>None\<close>, a list of names, or a dictionary from a
  key to a list of names.
\<close>

datatype py_groups =
    PyNone
  | PyList "string list"
  | PyDict "(string \<times> string list) list"

text \<open>
  \<^verbatim>\<open>OpenIDGroups.group_names(resp)\<close>: \<^verbatim>\<open>if "lp" in resp.extensions: team_resp =
  resp.extensions['lp']; return {"fas_groups": team_resp.teams}\<close>, else \<^verbatim>\<open>return None\<close>.
\<close>

definition OpenIDGroups_group_names :: "auth_response \<Rightarrow> py_groups" where
  "OpenIDGroups_group_names resp =
     (case map_of (extensions resp) ''lp'' of
        Some team_resp \<Rightarrow> PyDict [(''fas_groups'', teams team_resp)]
      | None \<Rightarrow> PyNone)"

text \<open>
  \<^verbatim>\<open>GroupAuth.group_names(resp=None, username=None)\<close>. A response object is truthy,
  \<^verbatim>\<open>None\<close> is not. In the directory branch the username is truthy, hence a string; the
  case of \<^verbatim>\<open>None\<close> there only completes the case distinction.
\<close>

definition GroupAuth_group_names ::
  "config \<Rightarrow> ldap_network \<Rightarrow> auth_response option \<Rightarrow> string option \<Rightarrow> (exn + py_groups) option" where
  "GroupAuth_group_names cfg net resp username =
     (case resp of
        Some r \<Rightarrow> Some (Inr (OpenIDGroups_group_names r))
      | None \<Rightarrow>
          if FAS_LOGIN cfg \<and> truthy_str username then Some (Inr PyNone)
          else if truthy_str username \<and> truthy_str (LDAP_URL cfg) \<and> truthy_str (LDAP_SEARCH_STRING cfg)
          then (case username of
                  None \<Rightarrow> Some (Inl TypeError)
                | Some u \<Rightarrow>
                    (case LDAPGroups_group_names cfg net u of
                       None \<Rightarrow> None
                     | Some (Inl e) \<Rightarrow> Some (Inl e)
                     | Some (Inr names) \<Rightarrow> Some (Inr (PyList names))))
          else Some (Inl (CoprHttpException ''Nowhere to get user groups from'')))"

subsection \<open>Identities (FedoraAccounts.user_from_response, Kerberos.user_from_username)\<close>

text \<open>
  Modelled from the spec: the classes \<^verbatim>\<open>models.User\<close> and \<^verbatim>\<open>UsersLogic\<close> are not among the
  sources. The spec's Identity is the durable record keyed by the normalized username,
  with username, email, timezone and a flag marking elevated privilege; the store is
  the list of its rows. A row carries the key under which the persistence layer holds
  it; an Identity that was created and not yet stored has none. \<^verbatim>\<open>UsersLogic.get(username)\<close>
  is the query for the rows with that username, \<^verbatim>\<open>.first()\<close> its first row or \<^verbatim>\<open>None\<close>,
  and \<^verbatim>\<open>UsersLogic.create_user_wrapper(username, email, timezone=None)\<close> builds a new
  Identity from its arguments without storing it (the caller is responsible for
  persistence).
\<close>

record user =
  user_id :: "nat option"
  username :: string
  mail :: "string option"
  user_timezone :: "string option"
  admin :: bool

text \<open>
  Modelled from the spec: \<^verbatim>\<open>UsersLogic.get\<close> is not among the sources; it looks up the
  Identities with the given username.
\<close>

definition UsersLogic_get :: "user list \<Rightarrow> string \<Rightarrow> user list" where
  "UsersLogic_get db name = filter (\<lambda>u. username u = name) db"

text \<open>
  Modelled from the spec: \<^verbatim>\<open>.first()\<close> of the query object is not among the sources; it
  is the first row found, or \<^verbatim>\<open>None\<close>.
\<close>

definition first :: "'a list \<Rightarrow> 'a option" where
  "first rows = (case rows of [] \<Rightarrow> None | r # _ \<Rightarrow> Some r)"

text \<open>
  Modelled from the spec: \<^verbatim>\<open>UsersLogic.create_user_wrapper\<close> is not among the sources; it
  creates an Identity from the username, the email and the timezone (\<^verbatim>\<open>None\<close> when left
  out), without elevated privilege.
\<close>

definition UsersLogic_create_user_wrapper :: "string \<Rightarrow> string option \<Rightarrow> string option \<Rightarrow> user" where
  "UsersLogic_create_user_wrapper name email_addr tz =
     \<lparr>user_id = None, username = name, mail = email_addr, user_timezone = tz,
      admin = False\<rparr>"

text \<open>
  \<^verbatim>\<open>FedoraAccounts.user_from_response(resp)\<close>: look the normalized name up, create the
  user when there is none, then \<^verbatim>\<open>user.mail = resp.email\<close> and
  \<^verbatim>\<open>user.timezone = resp.timezone\<close>.
\<close>

definition FedoraAccounts_user_from_response :: "config \<Rightarrow> user list \<Rightarrow> auth_response \<Rightarrow> exn + user" where
  "FedoraAccounts_user_from_response cfg db resp =
     (case FedoraAccounts_fed_raw_name cfg (identity_url resp) of
        Inl e \<Rightarrow> Inl e
      | Inr name \<Rightarrow>
          (let user = (case first (UsersLogic_get db name) of
                         None \<Rightarrow> UsersLogic_create_user_wrapper name (email resp) (timezone resp)
                       | Some u \<Rightarrow> u)
           in Inr (user\<lparr>mail := email resp, user_timezone := timezone resp\<rparr>)))"

text \<open>
  \<^verbatim>\<open>Kerberos.user_from_username(username)\<close>: an existing user is returned as it is;
  otherwise \<^verbatim>\<open>AccessRestricted\<close> is raised when \<^verbatim>\<open>FAS_LOGIN\<close> is \<^verbatim>\<open>True\<close>, and else the
  user is created with the e-mail \<^verbatim>\<open>username + "@" + krb_config['email_domain']\<close>.
  Subscripting an unset \<^verbatim>\<open>KRB5_LOGIN\<close> raises \<^verbatim>\<open>TypeError\<close>, a dictionary without the
  key raises \<^verbatim>\<open>KeyError\<close>.
\<close>

definition access_restricted_message :: "string \<Rightarrow> string" where
  "access_restricted_message name =
     ''Valid GSSAPI authentication supplied for user '' @ [CHR 0x27] @ name @ [CHR 0x27]
       @ '', but this user doesn'' @ [CHR 0x27] @ ''t exist in the Copr build system.  ''
       @ ''Please log-in using the web-UI (without GSSAPI) first.''"

definition Kerberos_user_from_username :: "config \<Rightarrow> user list \<Rightarrow> string \<Rightarrow> exn + user" where
  "Kerberos_user_from_username cfg db name =
     (case first (UsersLogic_get db name) of
        Some u \<Rightarrow> Inr u
      | None \<Rightarrow>
          if FAS_LOGIN cfg then Inl (AccessRestricted (access_restricted_message name))
          else (case KRB5_LOGIN cfg of
                  None \<Rightarrow> Inl TypeError
                | Some krb_config \<Rightarrow>
                    (case dict_get krb_config ''email_domain'' of
                       None \<Rightarrow> Inl (KeyError ''email_domain'')
                     | Some domain \<Rightarrow>
                         Inr (UsersLogic_create_user_wrapper name (Some (name @ ''@'' @ domain)) None))))"

text \<open>
  Modelled from the spec: the persistence layer is not among the sources. The caller
  is responsible for persistence of the Identity it is handed, which it does as
  \<^verbatim>\<open>gssapi_login\<close> does for its user, by \<^verbatim>\<open>db.session.add(user)\<close> and
  \<^verbatim>\<open>db.session.commit()\<close>: an Identity that came from the store is written back to its
  row, and an Identity that was newly created becomes a new row under a key no row has.
\<close>

fun next_id :: "user list \<Rightarrow> nat" where
  "next_id [] = 0"
| "next_id (r # rows) = max (case user_id r of None \<Rightarrow> 0 | Some i \<Rightarrow> Suc i) (next_id rows)"

definition db_session_add :: "user list \<Rightarrow> user \<Rightarrow> user list" where
  "db_session_add db u =
     (case user_id u of
        None \<Rightarrow> db @ [u\<lparr>user_id := Some (next_id db)\<rparr>]
      | Some i \<Rightarrow> map (\<lambda>r. if user_id r = Some i then u else r) db)"

text \<open>
  Modelled from the spec: the invariant of the store, that every row has a key and no
  two rows share one.
\<close>

definition wf_store :: "user list \<Rightarrow> bool" where
  "wf_store db = (list_all (\<lambda>r. user_id r \<noteq> None) db \<and> distinct (map user_id db))"

text \<open>
  Modelled from the spec: one federated login as the caller performs it, which is not
  among the sources: \<^verbatim>\<open>user_from_response\<close>, then persistence of the Identity returned.
\<close>

definition federated_login :: "config \<Rightarrow> user list \<Rightarrow> auth_response \<Rightarrow> exn + user list" where
  "federated_login cfg db resp =
     (case FedoraAccounts_user_from_response cfg db resp of
        Inl e \<Rightarrow> Inl e
      | Inr u \<Rightarrow> Inr (db_session_add db u))"

text \<open>
  Directory-group strings written out from their segments: \<^verbatim>\<open>key=value\<close> segments joined
  by commas. A key or
  value is plain when it contains neither the comma nor the equals sign.
\<close>

fun render_dn :: "(string \<times> string) list \<Rightarrow> string" where
  "render_dn [] = []"
| "render_dn [(k, v)] = k @ ''='' @ v"
| "render_dn ((k, v) # kv # kvs) = k @ ''='' @ v @ '','' @ render_dn (kv # kvs)"

definition plain :: "string \<Rightarrow> bool" where
  "plain s = (CHR '','' \<notin> set s \<and> CHR ''='' \<notin> set s)"

subsection \<open>Concrete configurations and inputs\<close>

definition federated_cfg :: config where
  "federated_cfg =
     \<lparr>FAS_LOGIN = True, KRB5_LOGIN = None, LDAP_URL = None, LDAP_SEARCH_STRING = None,
      USE_ALLOWED_USERS = False, ALLOWED_USERS = [],
      OPENID_PROVIDER_URL = ''https://id.example.org/''\<rparr>"

definition gated_cfg :: config where
  "gated_cfg = federated_cfg\<lparr>USE_ALLOWED_USERS := True, ALLOWED_USERS := [''alice'', ''bob'']\<rparr>"

definition directory_cfg :: config where
  "directory_cfg =
     \<lparr>FAS_LOGIN = False, KRB5_LOGIN = Some [(''email_domain'', ''example.org'')],
      LDAP_URL = Some ''ldap://ldap.example.org'',
      LDAP_SEARCH_STRING = Some ''ou=users,dc=example,dc=org'',
      USE_ALLOWED_USERS = False, ALLOWED_USERS = [],
      OPENID_PROVIDER_URL = ''https://id.example.org/''\<rparr>"

definition alice_entry :: ldap_entry where
  "alice_entry =
     (''uid=alice,ou=users,dc=example,dc=org'',
      [(''uid'', [''alice'']), (''memberOf'', [''cn=dev,ou=groups,dc=example,dc=org''])])"

text \<open>A directory that is down at the first attempt and answers from the second on.\<close>

definition flaky_directory :: ldap_network where
  "flaky_directory u n ou ffilter attrs =
     (if n = 1 then SERVER_DOWN ''Can't contact LDAP server'' else Entries [alice_entry])"

text \<open>A directory in which no entry matches.\<close>

definition empty_directory :: ldap_network where
  "empty_directory u n ou ffilter attrs = Entries []"

definition teams_resp :: auth_response where
  "teams_resp =
     \<lparr>identity_url = ''https://alice.id.example.org/'', email = Some ''alice@example.org'',
      timezone = Some ''UTC'',
      extensions = [(''lp'', TeamsResponse [''packager'', ''infra''])]\<rparr>"

definition plain_resp :: auth_response where
  "plain_resp = teams_resp\<lparr>email := Some ''alice@example.com'', timezone := Some ''CET'', extensions := []\<rparr>"

definition bob_resp :: auth_response where
  "bob_resp =
     \<lparr>identity_url = ''https://bob.id.example.org/'', email = Some ''bob@example.net'',
      timezone = Some ''CET'', extensions = []\<rparr>"

definition bob :: user where
  "bob =
     \<lparr>user_id = Some 1, username = ''bob'', mail = Some ''bob@example.org'',
      user_timezone = Some ''UTC'', admin = True\<rparr>"

section \<open>Properties\<close>

subsection \<open>The allow-list gate\<close>

text \<open>
  Claim C10. \<^verbatim>\<open>FedoraAccounts.is_user_allowed\<close> always returns a truth value: false for a
  null or empty username; true for every non-empty username when \<^verbatim>\<open>USE_ALLOWED_USERS\<close> is
  off; and, when it is on, true exactly when the non-empty username is a member of
  \<^verbatim>\<open>ALLOWED_USERS\<close>.
\<close>

theorem is_user_allowed_gate:
  "\<not> FedoraAccounts_is_user_allowed cfg None
   \<and> \<not> FedoraAccounts_is_user_allowed cfg (Some [])
   \<and> (n \<noteq> [] \<and> \<not> USE_ALLOWED_USERS cfg \<longrightarrow> FedoraAccounts_is_user_allowed cfg (Some n))
   \<and> (n \<noteq> [] \<and> USE_ALLOWED_USERS cfg \<longrightarrow>
        FedoraAccounts_is_user_allowed cfg (Some n) = (n \<in> set (ALLOWED_USERS cfg)))"
  by (simp add: FedoraAccounts_is_user_allowed_def)

theorem is_user_allowed_gate_witness:
  "FedoraAccounts_is_user_allowed federated_cfg (Some ''mallory'')
   \<and> FedoraAccounts_is_user_allowed gated_cfg (Some ''alice'')
   \<and> \<not> FedoraAccounts_is_user_allowed gated_cfg (Some ''mallory'')
   \<and> \<not> FedoraAccounts_is_user_allowed gated_cfg None
   \<and> \<not> FedoraAccounts_is_user_allowed gated_cfg (Some [])"
  using is_user_allowed_gate [of federated_cfg "''mallory''"]
    is_user_allowed_gate [of gated_cfg "''alice''"]
    is_user_allowed_gate [of gated_cfg "''mallory''"]
  by (simp add: federated_cfg_def gated_cfg_def)

subsection \<open>Group names when a response is supplied\<close>

text \<open>
  Claim C9. When a response is supplied to \<^verbatim>\<open>GroupAuth.group_names\<close>, the call returns
  what \<^verbatim>\<open>OpenIDGroups.group_names\<close> makes of the response; the result is the same for
  every configuration, directory and username and for every response with the same
  extension data; and when the \<^verbatim>\<open>lp\<close> name space is absent the result is \<^verbatim>\<open>None\<close>,
  never the directory's answer and never the no-source error.
\<close>

theorem group_names_response_only:
  "GroupAuth_group_names cfg net (Some resp) uname = Some (Inr (OpenIDGroups_group_names resp))
   \<and> (extensions resp' = extensions resp \<longrightarrow>
        GroupAuth_group_names cfg' net' (Some resp') uname'
          = GroupAuth_group_names cfg net (Some resp) uname)
   \<and> (''lp'' \<notin> fst ` set (extensions resp) \<longrightarrow>
        GroupAuth_group_names cfg net (Some resp) uname = Some (Inr PyNone))"
  by (auto simp add: GroupAuth_group_names_def OpenIDGroups_group_names_def
      map_of_eq_None_iff [symmetric])

theorem group_names_response_only_witness:
  "extensions (plain_resp\<lparr>email := None\<rparr>) = extensions plain_resp
   \<and> ''lp'' \<notin> fst ` set (extensions plain_resp)
   \<and> GroupAuth_group_names directory_cfg flaky_directory (Some plain_resp) (Some ''alice'')
       = Some (Inr PyNone)
   \<and> GroupAuth_group_names federated_cfg empty_directory (Some (plain_resp\<lparr>email := None\<rparr>)) None
       = Some (Inr PyNone)"
proof -
  have absent: "''lp'' \<notin> fst ` set (extensions plain_resp)"
    by (simp add: plain_resp_def)
  have same: "extensions (plain_resp\<lparr>email := None\<rparr>) = extensions plain_resp"
    by simp
  note inst = group_names_response_only [where cfg = directory_cfg and net = flaky_directory
      and resp = plain_resp and uname = "Some ''alice''"
      and resp' = "plain_resp\<lparr>email := None\<rparr>" and cfg' = federated_cfg
      and net' = empty_directory and uname' = None]
  from inst absent
  have first_call: "GroupAuth_group_names directory_cfg flaky_directory (Some plain_resp)
      (Some ''alice'') = Some (Inr PyNone)"
    by blast
  from inst same
  have "GroupAuth_group_names federated_cfg empty_directory
      (Some (plain_resp\<lparr>email := None\<rparr>)) None
      = GroupAuth_group_names directory_cfg flaky_directory (Some plain_resp) (Some ''alice'')"
    by blast
  with first_call absent same show ?thesis
    by simp
qed

text \<open>
  Claim C1. With a response that carries the teams extension, the claim expects the list
  of team names itself. The code returns the dictionary \<^verbatim>\<open>{"fas_groups": teams}\<close>
  instead, whatever the configuration, the directory and the username are; the
  directory is not consulted.
\<close>

theorem group_names_federated_returns_dict:
  "GroupAuth_group_names cfg net (Some teams_resp) uname
     = Some (Inr (PyDict [(''fas_groups'', [''packager'', ''infra''])]))
   \<and> GroupAuth_group_names cfg net (Some teams_resp) uname
     \<noteq> Some (Inr (PyList [''packager'', ''infra'']))"
  by (simp add: GroupAuth_group_names_def OpenIDGroups_group_names_def teams_resp_def)

subsection \<open>The directory client\<close>

text \<open>
  The retry loop always returns after its first iteration: \<^verbatim>\<open>_send_request\<close> never lets
  \<^verbatim>\<open>ldap.SERVER_DOWN\<close> through, so the handler of the loop is never entered.
\<close>

lemma send_request_repeatedly_single:
  "LDAP_send_request_repeatedly net self ou attrs ffilter i sleeps
     = Some (LDAP_send_request_single net self (i + 1) ou attrs ffilter, i + 1, sleeps)"
  by (subst LDAP_send_request_repeatedly.simps)
     (simp add: LDAP_send_request_single_def split: ldap_reply.split)

lemma send_request_single_attempt:
  "LDAP_send_request net self ou attrs ffilter
     = Some (LDAP_send_request_single net self 1 ou attrs ffilter)"
  by (simp add: LDAP_send_request_def send_request_repeatedly_single)

text \<open>
  Claim C2. The claim expects a request that meets a directory that is down to be retried
  until the directory answers, the failure never reaching the caller. On a directory
  that is down at the first attempt only, the code makes one attempt, does not sleep,
  and raises \<^verbatim>\<open>CoprHttpException\<close> with the directory's description to the caller.
\<close>

theorem send_request_surfaces_server_down:
  "LDAP_send_request_repeatedly flaky_directory self ou attrs ffilter 0 0
     = Some (Inl (CoprHttpException ''Can't contact LDAP server''), 1, 0)
   \<and> LDAP_send_request flaky_directory self ou attrs ffilter
     = Some (Inl (CoprHttpException ''Can't contact LDAP server''))"
  by (simp add: send_request_single_attempt send_request_repeatedly_single
      LDAP_send_request_single_def flaky_directory_def)

text \<open>
  For every directory, \<^verbatim>\<open>_send_request_repeatedly\<close> terminates: it returns after one
  attempt and no sleep, and what it returns is never \<^verbatim>\<open>ldap.SERVER_DOWN\<close>.
\<close>

theorem send_request_returns_after_one_attempt:
  "\<exists>outcome. LDAP_send_request_repeatedly net self ou attrs ffilter 0 0 = Some (outcome, 1, 0)
     \<and> (\<forall>desc. outcome \<noteq> Inl (LdapServerDown desc))"
  by (simp add: send_request_repeatedly_single LDAP_send_request_single_def
      split: ldap_reply.split)

text \<open>When the search finds entries, \<^verbatim>\<open>query_one\<close> returns the first.\<close>

lemma query_one_first_entry:
  "net (url self) 1 (search_string self) (LDAP_build_filter filters) attrs = Entries (e # es)
   \<Longrightarrow> LDAP_query_one net self attrs filters = Some (Inr e)"
  by (simp add: LDAP_query_one_def send_request_single_attempt LDAP_send_request_single_def)

text \<open>
  Claim C8. The claim expects \<^verbatim>\<open>query_one\<close> to fail with a not-found error when no entry
  matches, and \<^verbatim>\<open>get_user_groups\<close> to return \<^verbatim>\<open>None\<close> for an absent user. On a directory
  in which nothing matches, \<^verbatim>\<open>query_one\<close> raises the \<^verbatim>\<open>IndexError\<close> of its unguarded
  \<^verbatim>\<open>[0]\<close>, and \<^verbatim>\<open>get_user_groups\<close> raises it too and never reaches its \<^verbatim>\<open>return None\<close>.
\<close>

theorem query_one_empty_result_index_error:
  "LDAP_query_one empty_directory self attrs filters = Some (Inl IndexError)
   \<and> LDAP_get_user_groups empty_directory self uname = Some (Inl IndexError)"
  by (simp add: LDAP_get_user_groups_def LDAP_get_user_def LDAP_query_one_def
      send_request_single_attempt LDAP_send_request_single_def empty_directory_def)

subsection \<open>Normalizing the identity URL\<close>

text \<open>
  \<^verbatim>\<open>str.replace\<close> leaves a string without an occurrence as it is, and removes a suffix
  that starts with a character the rest does not contain.
\<close>

lemma str_replace_no_occurrence:
  "old \<noteq> [] \<Longrightarrow> \<not> sublist old s \<Longrightarrow> str_replace old new s = s"
  by (induction s) (auto simp: sublist_Cons_right)

lemma str_replace_suffix:
  "c \<notin> set u \<Longrightarrow> str_replace (c # h) [] (u @ c # h) = u"
  by (induction u) auto

text \<open>
  Claim C3, as the code has it. Let \<open>h\<close> be the network location of the configured
  provider URL. An identity URL whose network location is a dot-free name \<open>u\<close> followed
  by a dot and \<open>h\<close> normalizes to \<open>u\<close>; an identity URL with a non-empty network location
  in which a dot followed by \<open>h\<close> does not occur normalizes to that network location
  (not to the URL); and an identity without a network location is returned unchanged.
\<close>

theorem fed_raw_name_netloc:
  assumes "urlparse_netloc (OPENID_PROVIDER_URL cfg) = Inr h"
  shows "(urlparse_netloc oidname = Inr (u @ CHR ''.'' # h) \<and> CHR ''.'' \<notin> set u
            \<longrightarrow> FedoraAccounts_fed_raw_name cfg oidname = Inr u)
       \<and> (urlparse_netloc oidname = Inr n \<and> n \<noteq> [] \<and> \<not> sublist (CHR ''.'' # h) n
            \<longrightarrow> FedoraAccounts_fed_raw_name cfg oidname = Inr n)
       \<and> (urlparse_netloc oidname = Inr []
            \<longrightarrow> FedoraAccounts_fed_raw_name cfg oidname = Inr oidname)"
  using assms
  by (simp add: FedoraAccounts_fed_raw_name_def str_replace_suffix str_replace_no_occurrence)

theorem fed_raw_name_netloc_witness:
  "urlparse_netloc (OPENID_PROVIDER_URL federated_cfg) = Inr ''id.example.org''
   \<and> urlparse_netloc ''https://alice.id.example.org/'' = Inr (''alice'' @ CHR ''.'' # ''id.example.org'')
   \<and> CHR ''.'' \<notin> set ''alice''
   \<and> FedoraAccounts_fed_raw_name federated_cfg ''https://alice.id.example.org/'' = Inr ''alice''
   \<and> urlparse_netloc ''https://other.example.com/alice'' = Inr ''other.example.com''
   \<and> \<not> sublist (CHR ''.'' # ''id.example.org'') ''other.example.com''
   \<and> FedoraAccounts_fed_raw_name federated_cfg ''https://other.example.com/alice''
       = Inr ''other.example.com''
   \<and> urlparse_netloc ''alice'' = Inr []
   \<and> FedoraAccounts_fed_raw_name federated_cfg ''alice'' = Inr ''alice''"
proof -
  have p: "urlparse_netloc (OPENID_PROVIDER_URL federated_cfg) = Inr ''id.example.org''"
    unfolding federated_cfg_def by code_simp
  have a: "urlparse_netloc ''https://alice.id.example.org/'' = Inr (''alice'' @ CHR ''.'' # ''id.example.org'')"
    by code_simp
  have a': "CHR ''.'' \<notin> set ''alice''"
    by simp
  have b: "urlparse_netloc ''https://other.example.com/alice'' = Inr ''other.example.com''"
    by code_simp
  have b': "\<not> sublist (CHR ''.'' # ''id.example.org'') ''other.example.com''"
    by code_simp
  have c: "urlparse_netloc ''alice'' = Inr []"
    by code_simp
  from fed_raw_name_netloc [OF p, where oidname = "''https://alice.id.example.org/''" and u = "''alice''"] a a'
  have r1: "FedoraAccounts_fed_raw_name federated_cfg ''https://alice.id.example.org/'' = Inr ''alice''"
    by blast
  from fed_raw_name_netloc [OF p, where oidname = "''https://other.example.com/alice''" and n = "''other.example.com''"] b b'
  have r2: "FedoraAccounts_fed_raw_name federated_cfg ''https://other.example.com/alice''
       = Inr ''other.example.com''"
    by blast
  from fed_raw_name_netloc [OF p, where oidname = "''alice''"] c
  have r3: "FedoraAccounts_fed_raw_name federated_cfg ''alice'' = Inr ''alice''"
    by blast
  from p a a' b b' c r1 r2 r3 show ?thesis
    by blast
qed

text \<open>
  The claim as it was stated fails: with the provider \<^verbatim>\<open>https://id.example.org/\<close>, the
  identity \<^verbatim>\<open>https://id.example.org/alice\<close> normalizes to \<^verbatim>\<open>id.example.org\<close> and not to
  \<^verbatim>\<open>alice\<close>, and \<^verbatim>\<open>https://other.example.com/alice\<close> normalizes to
  \<^verbatim>\<open>other.example.com\<close> and is not passed through.
\<close>

theorem fed_raw_name_claim_counterexample:
  "FedoraAccounts_fed_raw_name federated_cfg ''https://id.example.org/alice'' = Inr ''id.example.org''
   \<and> FedoraAccounts_fed_raw_name federated_cfg ''https://id.example.org/alice'' \<noteq> Inr ''alice''
   \<and> FedoraAccounts_fed_raw_name federated_cfg ''https://other.example.com/alice''
       = Inr ''other.example.com''
   \<and> FedoraAccounts_fed_raw_name federated_cfg ''https://other.example.com/alice''
       \<noteq> Inr ''https://other.example.com/alice''"
  unfolding federated_cfg_def by code_simp

subsection \<open>Normalizing the Kerberos principal\<close>

text \<open>The three examples of the spec.\<close>

lemma krb_straighten_username_examples:
  "krb_straighten_username ''alice@EXAMPLE.COM'' = Some ''alice''"
  "krb_straighten_username ''alice/admin@EXAMPLE.COM'' = Some ''alice_admin''"
  "krb_straighten_username ''bad user!'' = None"
  by code_simp+

text \<open>
  Claim C5. The claim expects a result only when it consists of letters, digits,
  underscore, dash and dot, and \<^verbatim>\<open>None\<close> otherwise. For a principal that ends in a
  newline the code returns the name with the newline: the realm is cut up to the end
  of the line only, and \<^verbatim>\<open>$\<close> accepts a final newline.
\<close>

theorem krb_straighten_username_trailing_newline:
  "krb_straighten_username ''alice@EXAMPLE.COM\<newline>'' = Some ''alice\<newline>''
   \<and> \<not> list_all name_char ''alice\<newline>''"
  by code_simp

text \<open>On a principal without a newline, the realm is everything from the first \<^verbatim>\<open>@\<close> on.\<close>

lemma re_sub_realm_one_line:
  "CHR 0x0A \<notin> set s \<Longrightarrow> re_sub_realm s = takeWhile (\<lambda>c. c \<noteq> CHR ''@'') s"
proof (induction s rule: re_sub_realm.induct)
  case 1
  then show ?case by simp
next
  case (2 c cs)
  show ?case
  proof (cases "c = CHR ''@''")
    case True
    from 2(3) have rest: "dropWhile (\<lambda>x. x \<noteq> CHR 0x0A) cs = []"
      by auto
    from True have "re_sub_realm (c # cs) = re_sub_realm (dropWhile (\<lambda>x. x \<noteq> CHR 0x0A) cs)"
      by simp
    also have "\<dots> = []"
      unfolding rest by simp
    finally show ?thesis
      using True by simp
  next
    case False
    with 2 show ?thesis by simp
  qed
qed

text \<open>On a name without a newline, the match is the check of the character class.\<close>

lemma re_match_name_one_line:
  assumes "CHR 0x0A \<notin> set s"
  shows "re_match_name s = (s \<noteq> [] \<and> list_all name_char s)"
proof (cases "list_all name_char s")
  case True
  then have run: "takeWhile name_char s = s" and rest: "dropWhile name_char s = []"
    by (simp_all add: list_all_iff)
  show ?thesis
    unfolding re_match_name_def Let_def run rest using True by simp
next
  case False
  then have ne: "dropWhile name_char s \<noteq> []"
    by (simp add: list_all_iff dropWhile_eq_Nil_conv)
  have "set (dropWhile name_char s) \<subseteq> set s"
    by (rule set_dropWhileD [THEN subsetI])
  with assms have "dropWhile name_char s \<noteq> [CHR 0x0A]"
    by (metis list.set_intros(1) subsetD)
  with ne False show ?thesis
    by (simp add: re_match_name_def)
qed

text \<open>
  For every principal without a newline, \<^verbatim>\<open>krb_straighten_username\<close> takes the text
  before the first \<^verbatim>\<open>@\<close>, replaces every \<^verbatim>\<open>/\<close> by \<^verbatim>\<open>_\<close>, and returns the result when
  it is non-empty and consists of word characters, dots and dashes, and \<^verbatim>\<open>None\<close>
  otherwise.
\<close>

theorem krb_straighten_username_one_line:
  assumes "CHR 0x0A \<notin> set krb_remote_user"
  shows "krb_straighten_username krb_remote_user
           = (let name = re_sub_slash (takeWhile (\<lambda>c. c \<noteq> CHR ''@'') krb_remote_user)
              in if name \<noteq> [] \<and> list_all name_char name then Some name else None)"
proof -
  let ?name = "re_sub_slash (takeWhile (\<lambda>c. c \<noteq> CHR ''@'') krb_remote_user)"
  from assms have "CHR 0x0A \<notin> set (takeWhile (\<lambda>c. c \<noteq> CHR ''@'') krb_remote_user)"
    by (meson set_takeWhileD)
  then have "CHR 0x0A \<notin> set ?name"
    by (auto simp: re_sub_slash_def)
  then have "re_match_name ?name = (?name \<noteq> [] \<and> list_all name_char ?name)"
    by (rule re_match_name_one_line)
  with assms show ?thesis
    by (simp add: krb_straighten_username_def re_sub_realm_one_line Let_def)
qed

theorem krb_straighten_username_one_line_witness:
  "CHR 0x0A \<notin> set ''alice/admin@EXAMPLE.COM''
   \<and> krb_straighten_username ''alice/admin@EXAMPLE.COM'' = Some ''alice_admin''
   \<and> CHR 0x0A \<notin> set ''bad user!''
   \<and> krb_straighten_username ''bad user!'' = None"
proof -
  have a: "CHR 0x0A \<notin> set ''alice/admin@EXAMPLE.COM''" "CHR 0x0A \<notin> set ''bad user!''"
    by simp_all
  have b: "(let name = re_sub_slash (takeWhile (\<lambda>c. c \<noteq> CHR ''@'') ''alice/admin@EXAMPLE.COM'')
              in if name \<noteq> [] \<and> list_all name_char name then Some name else None)
           = Some ''alice_admin''"
    by code_simp
  have c: "(let name = re_sub_slash (takeWhile (\<lambda>c. c \<noteq> CHR ''@'') ''bad user!'')
              in if name \<noteq> [] \<and> list_all name_char name then Some name else None)
           = None"
    by code_simp
  from krb_straighten_username_one_line [OF a(1)] krb_straighten_username_one_line [OF a(2)]
    a b c show ?thesis
    by simp
qed

subsection \<open>Provisioning from a Kerberos username\<close>

lemma first_filter_None: "first (filter P xs) = None \<longleftrightarrow> \<not> (\<exists>x \<in> set xs. P x)"
  by (induction xs) (auto simp: first_def)

lemma first_filter_Some: "first (filter P xs) = Some x \<Longrightarrow> x \<in> set xs \<and> P x"
  by (induction xs) (auto simp: first_def split: if_splits)

lemma first_get_None: "first (UsersLogic_get db name) = None \<longleftrightarrow> name \<notin> username ` set db"
  by (auto simp: UsersLogic_get_def first_filter_None)

lemma first_get_Some:
  "first (UsersLogic_get db name) = Some u \<Longrightarrow> u \<in> set db \<and> username u = name"
  unfolding UsersLogic_get_def by (drule first_filter_Some) simp

text \<open>
  Claim C4. \<^verbatim>\<open>Kerberos.user_from_username\<close>: the stored Identity with the username, when
  there is one, is returned as it is stored (and some Identity is found whenever the
  username is stored); when there is none and \<^verbatim>\<open>FAS_LOGIN\<close> is on, the call fails with
  \<^verbatim>\<open>AccessRestricted\<close>; when there is none, \<^verbatim>\<open>FAS_LOGIN\<close> is off and \<^verbatim>\<open>KRB5_LOGIN\<close>
  configures an \<^verbatim>\<open>email_domain\<close>, a new Identity is created whose email is the username,
  \<^verbatim>\<open>@\<close> and that domain.
\<close>

theorem user_from_username_cases:
  "(first (UsersLogic_get db name) = Some u \<longrightarrow>
       Kerberos_user_from_username cfg db name = Inr u \<and> u \<in> set db \<and> username u = name)
   \<and> (name \<in> username ` set db \<longrightarrow>
       (\<exists>existing. first (UsersLogic_get db name) = Some existing))
   \<and> (name \<notin> username ` set db \<and> FAS_LOGIN cfg \<longrightarrow>
       Kerberos_user_from_username cfg db name
         = Inl (AccessRestricted (access_restricted_message name)))
   \<and> (name \<notin> username ` set db \<and> \<not> FAS_LOGIN cfg \<and> KRB5_LOGIN cfg = Some krb_config
        \<and> dict_get krb_config ''email_domain'' = Some domain \<longrightarrow>
       Kerberos_user_from_username cfg db name
         = Inr (UsersLogic_create_user_wrapper name (Some (name @ ''@'' @ domain)) None)
       \<and> mail (UsersLogic_create_user_wrapper name (Some (name @ ''@'' @ domain)) None)
         = Some (name @ ''@'' @ domain))"
proof (intro conjI impI)
  assume "first (UsersLogic_get db name) = Some u"
  then show "Kerberos_user_from_username cfg db name = Inr u"
    and "u \<in> set db" and "username u = name"
    by (simp_all add: Kerberos_user_from_username_def first_get_Some)
next
  assume "name \<in> username ` set db"
  then have "first (UsersLogic_get db name) \<noteq> None"
    by (simp add: first_get_None)
  then show "\<exists>existing. first (UsersLogic_get db name) = Some existing"
    by auto
next
  assume "name \<notin> username ` set db \<and> FAS_LOGIN cfg"
  then show "Kerberos_user_from_username cfg db name
         = Inl (AccessRestricted (access_restricted_message name))"
    by (simp add: Kerberos_user_from_username_def first_get_None [symmetric])
next
  assume a: "name \<notin> username ` set db \<and> \<not> FAS_LOGIN cfg \<and> KRB5_LOGIN cfg = Some krb_config
        \<and> dict_get krb_config ''email_domain'' = Some domain"
  then show "Kerberos_user_from_username cfg db name
         = Inr (UsersLogic_create_user_wrapper name (Some (name @ ''@'' @ domain)) None)"
    by (simp add: Kerberos_user_from_username_def first_get_None [symmetric])
  show "mail (UsersLogic_create_user_wrapper name (Some (name @ ''@'' @ domain)) None)
         = Some (name @ ''@'' @ domain)"
    by (simp add: UsersLogic_create_user_wrapper_def)
qed

theorem user_from_username_cases_witness:
  "first (UsersLogic_get [bob] ''bob'') = Some bob
   \<and> Kerberos_user_from_username federated_cfg [bob] ''bob'' = Inr bob
   \<and> ''carol'' \<notin> username ` set [bob] \<and> FAS_LOGIN federated_cfg
   \<and> Kerberos_user_from_username federated_cfg [bob] ''carol''
       = Inl (AccessRestricted (access_restricted_message ''carol''))
   \<and> \<not> FAS_LOGIN directory_cfg
   \<and> KRB5_LOGIN directory_cfg = Some [(''email_domain'', ''example.org'')]
   \<and> dict_get [(''email_domain'', ''example.org'')] ''email_domain'' = Some ''example.org''
   \<and> Kerberos_user_from_username directory_cfg [bob] ''carol''
       = Inr \<lparr>user_id = None, username = ''carol'', mail = Some ''carol@example.org'',
              user_timezone = None, admin = False\<rparr>"
proof -
  have found: "first (UsersLogic_get [bob] ''bob'') = Some bob"
    by (simp add: UsersLogic_get_def first_def bob_def)
  have unknown: "''carol'' \<notin> username ` set [bob]"
    by (simp add: bob_def)
  have fas: "FAS_LOGIN federated_cfg" "\<not> FAS_LOGIN directory_cfg"
    by (simp_all add: federated_cfg_def directory_cfg_def)
  have krb: "KRB5_LOGIN directory_cfg = Some [(''email_domain'', ''example.org'')]"
    by (simp add: directory_cfg_def)
  have dom: "dict_get [(''email_domain'', ''example.org'')] ''email_domain'' = Some ''example.org''"
    by (simp add: dict_get_def)
  from user_from_username_cases [where db = "[bob]" and name = "''bob''" and u = bob
      and cfg = federated_cfg] found
  have r1: "Kerberos_user_from_username federated_cfg [bob] ''bob'' = Inr bob"
    by blast
  from user_from_username_cases [where db = "[bob]" and name = "''carol''"
      and cfg = federated_cfg] unknown fas
  have r2: "Kerberos_user_from_username federated_cfg [bob] ''carol''
       = Inl (AccessRestricted (access_restricted_message ''carol''))"
    by blast
  from user_from_username_cases [where db = "[bob]" and name = "''carol''"
      and cfg = directory_cfg and krb_config = "[(''email_domain'', ''example.org'')]"
      and domain = "''example.org''"] unknown fas krb dom
  have "Kerberos_user_from_username directory_cfg [bob] ''carol''
       = Inr (UsersLogic_create_user_wrapper ''carol'' (Some (''carol'' @ ''@'' @ ''example.org'')) None)"
    by blast
  then have r3: "Kerberos_user_from_username directory_cfg [bob] ''carol''
       = Inr \<lparr>user_id = None, username = ''carol'', mail = Some ''carol@example.org'',
              user_timezone = None, admin = False\<rparr>"
    by (simp add: UsersLogic_create_user_wrapper_def)
  from found unknown fas krb dom r1 r2 r3 show ?thesis
    by blast
qed

subsection \<open>Group names from the directory\<close>

lemma str_split_no_sep: "sep \<notin> set s \<Longrightarrow> str_split sep s = [s]"
  by (induction s) auto

lemma str_split_append:
  "sep \<notin> set a \<Longrightarrow> str_split sep (a @ sep # b) = a # str_split sep b"
  by (induction a) auto

lemma key_value_segment:
  "plain k \<Longrightarrow> plain v \<Longrightarrow> key_value (str_split CHR ''='' (k @ CHR ''='' # v)) = Inr (k, v)"
  by (simp add: plain_def str_split_append str_split_no_sep)

lemma str_split_segment:
  assumes "plain k" "plain v"
  shows "str_split CHR '','' (k @ CHR ''='' # v @ CHR '','' # rest)
           = (k @ CHR ''='' # v) # str_split CHR '','' rest"
proof -
  from assms have "CHR '','' \<notin> set (k @ CHR ''='' # v)"
    by (simp add: plain_def)
  then have "str_split CHR '','' ((k @ CHR ''='' # v) @ CHR '','' # rest)
      = (k @ CHR ''='' # v) # str_split CHR '','' rest"
    by (rule str_split_append)
  then show ?thesis by simp
qed

lemma key_values_render_dn:
  "kvs \<noteq> [] \<Longrightarrow> list_all (\<lambda>(k, v). plain k \<and> plain v) kvs \<Longrightarrow>
   key_values (str_split CHR '','' (render_dn kvs)) = Inr kvs"
proof (induction kvs rule: render_dn.induct)
  case 1
  then show ?case by simp
next
  case (2 k v)
  then have "str_split CHR '','' (k @ CHR ''='' # v) = [k @ CHR ''='' # v]"
    by (intro str_split_no_sep) (simp add: plain_def)
  with 2 show ?case
    by (simp add: key_value_segment)
next
  case (3 k v kv kvs)
  then have pk: "plain k" "plain v" by simp_all
  from 3 have "key_values (str_split CHR '','' (render_dn (kv # kvs))) = Inr (kv # kvs)"
    by simp
  with pk show ?case
    by (simp add: str_split_segment key_value_segment)
qed

lemma dict_get_first_key:
  "k \<notin> fst ` set kvs \<Longrightarrow> dict_get ((k, v) # kvs) k = Some v"
  by (simp add: dict_get_def map_add_def map_of_eq_None_iff [THEN iffD2]
      split: option.split)

text \<open>
  For a string \<^verbatim>\<open>cn=X,k1=v1,...,kn=vn\<close> in which \<open>X\<close> and every key and value are plain
  and no later key is \<^verbatim>\<open>cn\<close>, the parser extracts exactly \<open>X\<close>, however many segments
  follow.
\<close>

theorem group_cn_extracts_first_cn:
  "plain x \<and> list_all (\<lambda>(k, v). plain k \<and> plain v \<and> k \<noteq> ''cn'') segs
   \<longrightarrow> group_cn (render_dn ((''cn'', x) # segs)) = Inr x"
proof
  assume a: "plain x \<and> list_all (\<lambda>(k, v). plain k \<and> plain v \<and> k \<noteq> ''cn'') segs"
  then have all_plain: "list_all (\<lambda>(k, v). plain k \<and> plain v) ((''cn'', x) # segs)"
    by (auto simp: list_all_iff plain_def)
  from a have "''cn'' \<notin> fst ` set segs"
    by (auto simp: list_all_iff)
  then have "dict_get ((''cn'', x) # segs) ''cn'' = Some x"
    by (rule dict_get_first_key)
  with key_values_render_dn [OF _ all_plain] show "group_cn (render_dn ((''cn'', x) # segs)) = Inr x"
    by (simp add: group_cn_def)
qed

theorem group_cn_extracts_first_cn_witness:
  "plain ''dev''
   \<and> list_all (\<lambda>(k, v). plain k \<and> plain v \<and> k \<noteq> ''cn'')
        [(''ou'', ''groups''), (''dc'', ''example''), (''dc'', ''org'')]
   \<and> render_dn [(''cn'', ''dev''), (''ou'', ''groups''), (''dc'', ''example''), (''dc'', ''org'')]
       = ''cn=dev,ou=groups,dc=example,dc=org''
   \<and> group_cn ''cn=dev,ou=groups,dc=example,dc=org'' = Inr ''dev''"
proof -
  have p: "plain ''dev''"
    by (simp add: plain_def)
  have q: "list_all (\<lambda>(k, v). plain k \<and> plain v \<and> k \<noteq> ''cn'')
        [(''ou'', ''groups''), (''dc'', ''example''), (''dc'', ''org'')]"
    by (simp add: plain_def)
  have r: "render_dn [(''cn'', ''dev''), (''ou'', ''groups''), (''dc'', ''example''), (''dc'', ''org'')]
       = ''cn=dev,ou=groups,dc=example,dc=org''"
    by simp
  from group_cn_extracts_first_cn [of "''dev''"
      "[(''ou'', ''groups''), (''dc'', ''example''), (''dc'', ''org'')]"] p q
  have "group_cn (render_dn [(''cn'', ''dev''), (''ou'', ''groups''), (''dc'', ''example''),
      (''dc'', ''org'')]) = Inr ''dev''"
    by blast
  with p q r show ?thesis
    by simp
qed

text \<open>
  Claim C7. The claim expects the name of the first segment, \<^verbatim>\<open>cn=X\<close>, whatever segments
  follow. When a later segment has the key \<^verbatim>\<open>cn\<close> again, as the containers of a
  directory tree often have, the code returns the value of the last such segment and
  not the name of the group: the dictionary built from the segments keeps the last
  value of a key.
\<close>

theorem group_cn_returns_last_cn:
  "group_cn ''cn=dev,ou=groups,cn=accounts'' = Inr ''accounts''
   \<and> group_cn ''cn=dev,ou=groups,cn=accounts'' \<noteq> Inr ''dev''
   \<and> group_cn ''cn=packager,cn=groups,cn=accounts,dc=example,dc=com'' = Inr ''accounts''
   \<and> group_cn ''cn=packager,cn=groups,cn=accounts,dc=example,dc=com'' \<noteq> Inr ''packager''
   \<and> group_cns [''cn=packager,cn=groups,cn=accounts,dc=example,dc=com'',
                 ''cn=infra,cn=groups,cn=accounts,dc=example,dc=com'']
       = Inr [''accounts'', ''accounts'']"
  by code_simp

subsection \<open>Federated provisioning, twice\<close>

text \<open>A key that \<open>next_id\<close> hands out is above every key in the store.\<close>

lemma next_id_above: "r \<in> set db \<Longrightarrow> user_id r = Some i \<Longrightarrow> i < next_id db"
  by (induction db) (auto simp: less_max_iff_disj)

lemma next_id_fresh: "Some (next_id db) \<notin> user_id ` set db"
proof
  assume "Some (next_id db) \<in> user_id ` set db"
  then obtain r where "r \<in> set db" "user_id r = Some (next_id db)"
    by force
  then have "next_id db < next_id db"
    by (rule next_id_above)
  then show False by simp
qed

text \<open>
  What \<^verbatim>\<open>db.session.add\<close> does to the store: a new Identity is appended under a fresh
  key; an Identity with the key of a stored row replaces that row and no other.
\<close>

lemma get_append:
  "UsersLogic_get (db @ [x]) name = UsersLogic_get db name @ (if username x = name then [x] else [])"
  by (simp add: UsersLogic_get_def)

lemma add_new:
  assumes "user_id u = None" and "wf_store db"
  shows "db_session_add db u = db @ [u\<lparr>user_id := Some (next_id db)\<rparr>]"
    and "wf_store (db_session_add db u)"
  using assms next_id_fresh [of db]
  by (auto simp: db_session_add_def wf_store_def)

lemma add_stored:
  assumes wf: "wf_store db" and e: "e \<in> set db" and same: "user_id u = user_id e"
  shows "db_session_add db u = map (\<lambda>r. if r = e then u else r) db"
proof -
  from wf e obtain i where i: "user_id e = Some i"
    by (auto simp: wf_store_def list_all_iff)
  from wf have "inj_on user_id (set db)"
    by (simp add: wf_store_def distinct_map)
  with e have "\<And>r. r \<in> set db \<Longrightarrow> (user_id r = Some i) = (r = e)"
    using i by (metis inj_onD)
  then have "map (\<lambda>r. if user_id r = Some i then u else r) db
      = map (\<lambda>r. if r = e then u else r) db"
    by (intro map_cong) auto
  with same i show ?thesis
    by (simp add: db_session_add_def)
qed

lemma wf_replace:
  assumes "wf_store db" and "user_id u = user_id e"
  shows "wf_store (map (\<lambda>r. if r = e then u else r) db)"
proof -
  from assms(2) have ids: "map user_id (map (\<lambda>r. if r = e then u else r) db) = map user_id db"
    by (induction db) auto
  from assms have keys: "list_all (\<lambda>r. user_id r \<noteq> None) (map (\<lambda>r. if r = e then u else r) db)"
    by (induction db) (auto simp: wf_store_def)
  from assms(1) have "distinct (map user_id db)"
    by (simp add: wf_store_def)
  then have "distinct (map user_id (map (\<lambda>r. if r = e then u else r) db))"
    by (simp only: ids)
  with keys show ?thesis
    unfolding wf_store_def by blast
qed

lemma get_replace:
  assumes "username u = username e"
  shows "UsersLogic_get (map (\<lambda>r. if r = e then u else r) db) name
           = map (\<lambda>r. if r = e then u else r) (UsersLogic_get db name)"
  using assms by (induction db) (auto simp: UsersLogic_get_def)

lemma others_replace:
  assumes "username u = name" and "username e = name"
  shows "filter (\<lambda>r. username r \<noteq> name) (map (\<lambda>r. if r = e then u else r) db)
           = filter (\<lambda>r. username r \<noteq> name) db"
  using assms by (induction db) auto

lemma first_get_username: "first (UsersLogic_get db name) = Some u \<Longrightarrow> username u = name"
  by (induction db) (auto simp: UsersLogic_get_def first_def split: if_splits)

text \<open>A login of a username that is stored once: its row is rewritten in place.\<close>

lemma federated_login_stored:
  assumes norm: "FedoraAccounts_fed_raw_name cfg (identity_url resp) = Inr name"
    and wf: "wf_store db"
    and stored: "UsersLogic_get db name = [e]"
  shows "\<exists>db'. federated_login cfg db resp = Inr db' \<and> wf_store db'
           \<and> UsersLogic_get db' name = [e\<lparr>mail := email resp, user_timezone := timezone resp\<rparr>]
           \<and> length db' = length db
           \<and> filter (\<lambda>r. username r \<noteq> name) db' = filter (\<lambda>r. username r \<noteq> name) db"
proof -
  let ?u = "e\<lparr>mail := email resp, user_timezone := timezone resp\<rparr>"
  let ?db' = "map (\<lambda>r. if r = e then ?u else r) db"
  from stored have first: "first (UsersLogic_get db name) = Some e"
    by (simp add: first_def)
  then have name: "username e = name"
    by (rule first_get_username)
  have "set (UsersLogic_get db name) \<subseteq> set db"
    by (simp add: UsersLogic_get_def)
  with stored have mem: "e \<in> set db"
    by simp
  from norm first have "FedoraAccounts_user_from_response cfg db resp = Inr ?u"
    by (simp add: FedoraAccounts_user_from_response_def)
  moreover have "db_session_add db ?u = ?db'"
    by (rule add_stored [OF wf mem]) simp
  ultimately have login: "federated_login cfg db resp = Inr ?db'"
    by (simp add: federated_login_def)
  have "wf_store ?db'"
    by (rule wf_replace [OF wf]) simp
  moreover have "UsersLogic_get ?db' name = [?u]"
    using get_replace [of ?u e db name] stored by simp
  moreover have "filter (\<lambda>r. username r \<noteq> name) ?db' = filter (\<lambda>r. username r \<noteq> name) db"
    by (rule others_replace) (simp_all add: name)
  ultimately show ?thesis
    using login by simp
qed

text \<open>A login of a username that is not stored: a new row is added.\<close>

lemma federated_login_new:
  assumes norm: "FedoraAccounts_fed_raw_name cfg (identity_url resp) = Inr name"
    and wf: "wf_store db"
    and unknown: "UsersLogic_get db name = []"
  shows "\<exists>db'. federated_login cfg db resp = Inr db' \<and> wf_store db'
           \<and> UsersLogic_get db' name
               = [\<lparr>user_id = Some (next_id db), username = name, mail = email resp,
                   user_timezone = timezone resp, admin = False\<rparr>]
           \<and> length db' = Suc (length db)
           \<and> filter (\<lambda>r. username r \<noteq> name) db' = filter (\<lambda>r. username r \<noteq> name) db"
proof -
  let ?u = "UsersLogic_create_user_wrapper name (email resp) (timezone resp)
              \<lparr>mail := email resp, user_timezone := timezone resp\<rparr>"
  let ?row = "\<lparr>user_id = Some (next_id db), username = name, mail = email resp,
                user_timezone = timezone resp, admin = False\<rparr>"
  from unknown have "first (UsersLogic_get db name) = None"
    by (simp add: first_def)
  with norm have "FedoraAccounts_user_from_response cfg db resp = Inr ?u"
    by (simp add: FedoraAccounts_user_from_response_def)
  then have login: "federated_login cfg db resp = Inr (db_session_add db ?u)"
    by (simp add: federated_login_def)
  have fresh: "user_id ?u = None"
    by (simp add: UsersLogic_create_user_wrapper_def)
  have added: "db_session_add db ?u = db @ [?row]"
    using add_new(1) [OF fresh wf] by (simp add: UsersLogic_create_user_wrapper_def)
  have "wf_store (db_session_add db ?u)"
    by (rule add_new(2) [OF fresh wf])
  moreover have "UsersLogic_get (db @ [?row]) name = [?row]"
    using unknown by (simp add: get_append)
  ultimately show ?thesis
    using login added by simp
qed

text \<open>
  Claim C6. Two federated logins with the same identity URL, whose normalization
  succeeds, on a store with a key for every row, no key twice and the username stored
  at most once: both succeed, and afterwards exactly one Identity is stored for the
  username. It is the Identity that was stored before, with its key and privilege flag
  and with the email and timezone of the second response, or, when the username was
  not stored, a new Identity with those claims. The first login adds a row only when the
  username was not stored, the second login adds none, and the Identities of other
  usernames are as they were.
\<close>

theorem federated_login_twice:
  assumes same_url: "identity_url r2 = identity_url r1"
    and norm: "FedoraAccounts_fed_raw_name cfg (identity_url r1) = Inr name"
    and wf: "wf_store db"
    and one: "length (UsersLogic_get db name) \<le> 1"
  shows "\<exists>db1 db2. federated_login cfg db r1 = Inr db1
           \<and> federated_login cfg db1 r2 = Inr db2
           \<and> UsersLogic_get db2 name
               = [case first (UsersLogic_get db name) of
                    None \<Rightarrow> \<lparr>user_id = Some (next_id db), username = name, mail = email r2,
                               user_timezone = timezone r2, admin = False\<rparr>
                  | Some e \<Rightarrow> e\<lparr>mail := email r2, user_timezone := timezone r2\<rparr>]
           \<and> length db2 = length db1
           \<and> length db1 = (if UsersLogic_get db name = [] then Suc (length db) else length db)
           \<and> filter (\<lambda>r. username r \<noteq> name) db2 = filter (\<lambda>r. username r \<noteq> name) db"
proof -
  from norm same_url have norm2: "FedoraAccounts_fed_raw_name cfg (identity_url r2) = Inr name"
    by simp
  show ?thesis
  proof (cases "UsersLogic_get db name")
    case Nil
    from federated_login_new [OF norm wf Nil]
    obtain db1 where db1: "federated_login cfg db r1 = Inr db1" "wf_store db1"
        "UsersLogic_get db1 name
           = [\<lparr>user_id = Some (next_id db), username = name, mail = email r1,
               user_timezone = timezone r1, admin = False\<rparr>]"
        "length db1 = Suc (length db)"
        "filter (\<lambda>r. username r \<noteq> name) db1 = filter (\<lambda>r. username r \<noteq> name) db"
      by blast
    from federated_login_stored [OF norm2 db1(2) db1(3)]
    obtain db2 where db2: "federated_login cfg db1 r2 = Inr db2"
        "UsersLogic_get db2 name
           = [\<lparr>user_id = Some (next_id db), username = name, mail = email r1,
               user_timezone = timezone r1, admin = False\<rparr>
                \<lparr>mail := email r2, user_timezone := timezone r2\<rparr>]"
        "length db2 = length db1"
        "filter (\<lambda>r. username r \<noteq> name) db2 = filter (\<lambda>r. username r \<noteq> name) db1"
      by blast
    from Nil db1 db2 show ?thesis
      by (simp add: first_def)
  next
    case (Cons e rest)
    with one have stored: "UsersLogic_get db name = [e]"
      by simp
    let ?u1 = "e\<lparr>mail := email r1, user_timezone := timezone r1\<rparr>"
    from federated_login_stored [OF norm wf stored]
    obtain db1 where db1: "federated_login cfg db r1 = Inr db1" "wf_store db1"
        "UsersLogic_get db1 name = [?u1]" "length db1 = length db"
        "filter (\<lambda>r. username r \<noteq> name) db1 = filter (\<lambda>r. username r \<noteq> name) db"
      by blast
    from federated_login_stored [OF norm2 db1(2) db1(3)]
    obtain db2 where db2: "federated_login cfg db1 r2 = Inr db2"
        "UsersLogic_get db2 name = [?u1\<lparr>mail := email r2, user_timezone := timezone r2\<rparr>]"
        "length db2 = length db1"
        "filter (\<lambda>r. username r \<noteq> name) db2 = filter (\<lambda>r. username r \<noteq> name) db1"
      by blast
    from stored db1 db2 show ?thesis
      by (simp add: first_def)
  qed
qed

theorem federated_login_twice_witness:
  "identity_url plain_resp = identity_url teams_resp
   \<and> FedoraAccounts_fed_raw_name federated_cfg (identity_url teams_resp) = Inr ''alice''
   \<and> wf_store [bob]
   \<and> length (UsersLogic_get [bob] ''alice'') \<le> 1
   \<and> (\<exists>db1 db2. federated_login federated_cfg [bob] teams_resp = Inr db1
         \<and> federated_login federated_cfg db1 plain_resp = Inr db2
         \<and> UsersLogic_get db2 ''alice''
             = [\<lparr>user_id = Some 2, username = ''alice'', mail = Some ''alice@example.com'',
                 user_timezone = Some ''CET'', admin = False\<rparr>]
         \<and> length db2 = 2
         \<and> filter (\<lambda>r. username r \<noteq> ''alice'') db2 = [bob])
   \<and> identity_url bob_resp = identity_url (bob_resp\<lparr>email := None\<rparr>)
   \<and> FedoraAccounts_fed_raw_name federated_cfg (identity_url (bob_resp\<lparr>email := None\<rparr>))
       = Inr ''bob''
   \<and> length (UsersLogic_get [bob] ''bob'') \<le> 1
   \<and> (\<exists>db1 db2. federated_login federated_cfg [bob] (bob_resp\<lparr>email := None\<rparr>) = Inr db1
         \<and> federated_login federated_cfg db1 bob_resp = Inr db2
         \<and> UsersLogic_get db2 ''bob''
             = [\<lparr>user_id = Some 1, username = ''bob'', mail = Some ''bob@example.net'',
                 user_timezone = Some ''CET'', admin = True\<rparr>]
         \<and> length db2 = 1)"
proof -
  have a: "identity_url plain_resp = identity_url teams_resp"
    by (simp add: plain_resp_def)
  have b: "FedoraAccounts_fed_raw_name federated_cfg (identity_url teams_resp) = Inr ''alice''"
    unfolding federated_cfg_def teams_resp_def by code_simp
  have wf: "wf_store [bob]"
    by (simp add: wf_store_def bob_def)
  have c: "UsersLogic_get [bob] ''alice'' = []"
    by (simp add: UsersLogic_get_def bob_def)
  then have c': "length (UsersLogic_get [bob] ''alice'') \<le> 1"
    by simp
  have d: "email plain_resp = Some ''alice@example.com''" "timezone plain_resp = Some ''CET''"
    by (simp_all add: plain_resp_def)
  have e: "filter (\<lambda>r. username r \<noteq> ''alice'') [bob] = [bob]"
    by (simp add: bob_def)
  have n: "next_id [bob] = 2"
    by (simp add: bob_def)
  from federated_login_twice [OF a b wf c']
  have alice: "\<exists>db1 db2. federated_login federated_cfg [bob] teams_resp = Inr db1
         \<and> federated_login federated_cfg db1 plain_resp = Inr db2
         \<and> UsersLogic_get db2 ''alice''
             = [\<lparr>user_id = Some 2, username = ''alice'', mail = Some ''alice@example.com'',
                 user_timezone = Some ''CET'', admin = False\<rparr>]
         \<and> length db2 = 2
         \<and> filter (\<lambda>r. username r \<noteq> ''alice'') db2 = [bob]"
    unfolding c d e n by (auto simp: first_def)
  have a2: "identity_url bob_resp = identity_url (bob_resp\<lparr>email := None\<rparr>)"
    by simp
  have b2: "FedoraAccounts_fed_raw_name federated_cfg (identity_url (bob_resp\<lparr>email := None\<rparr>))
       = Inr ''bob''"
    unfolding federated_cfg_def bob_resp_def by code_simp
  have c2: "UsersLogic_get [bob] ''bob'' = [bob]"
    by (simp add: UsersLogic_get_def bob_def)
  then have c2': "length (UsersLogic_get [bob] ''bob'') \<le> 1"
    by simp
  have d2: "email bob_resp = Some ''bob@example.net''" "timezone bob_resp = Some ''CET''"
    by (simp_all add: bob_resp_def)
  have r2: "bob\<lparr>mail := Some ''bob@example.net'', user_timezone := Some ''CET''\<rparr>
      = \<lparr>user_id = Some 1, username = ''bob'', mail = Some ''bob@example.net'',
          user_timezone = Some ''CET'', admin = True\<rparr>"
    by (simp add: bob_def)
  from federated_login_twice [OF a2 b2 wf c2']
  have bob: "\<exists>db1 db2. federated_login federated_cfg [bob] (bob_resp\<lparr>email := None\<rparr>) = Inr db1
         \<and> federated_login federated_cfg db1 bob_resp = Inr db2
         \<and> UsersLogic_get db2 ''bob''
             = [\<lparr>user_id = Some 1, username = ''bob'', mail = Some ''bob@example.net'',
                 user_timezone = Some ''CET'', admin = True\<rparr>]
         \<and> length db2 = 1"
    unfolding c2 d2 by (auto simp: first_def r2)
  from a b wf c' alice a2 b2 c2' bob show ?thesis
    by blast
qed

end
